theory Spec2Isabelle
  imports Main
begin

section \<open>JavaScript values\<close>

text \<open>
  The actions of \<^verbatim>\<open>router.js\<close> receive a parameter bag decoded from JSON. Only
  truthiness and \<^verbatim>\<open>typeof\<close> of a number are ever observed, so numbers are integers here.
  An object is the list of its own properties, each key once. A string is a list of
  \<^typ>\<open>char\<close>, one byte per character.
\<close>

datatype jsval =
    JUndefined
  | JNull
  | JBool bool
  | JNum int
  | JStr string
  | JArr "jsval list"
  | JObj "(string \<times> jsval) list"

datatype jstype = TUndefined | TObject | TBoolean | TNumber | TString

fun truthy :: "jsval \<Rightarrow> bool" where
  "truthy JUndefined = False"
| "truthy JNull = False"
| "truthy (JBool b) = b"
| "truthy (JNum n) = (n \<noteq> 0)"
| "truthy (JStr s) = (s \<noteq> [])"
| "truthy (JArr xs) = True"
| "truthy (JObj kvs) = True"

fun typeof :: "jsval \<Rightarrow> jstype" where
  "typeof JUndefined = TUndefined"
| "typeof JNull = TObject"
| "typeof (JBool b) = TBoolean"
| "typeof (JNum n) = TNumber"
| "typeof (JStr s) = TString"
| "typeof (JArr xs) = TObject"
| "typeof (JObj kvs) = TObject"

fun isArray :: "jsval \<Rightarrow> bool" where
  "isArray (JArr xs) = True"
| "isArray v = False"

text \<open>
  \<^verbatim>\<open>String.prototype.trim\<close> strips white space and line terminators from both ends. A
  \<^typ>\<open>char\<close> is one byte, so the strippable characters are TAB, LF, VT, FF, CR, SPACE and
  NBSP.
\<close>

definition is_space :: "char \<Rightarrow> bool" where
  "is_space c = (of_char c \<in> {9, 10, 11, 12, 13, 32, 160 :: nat})"

definition trim :: "string \<Rightarrow> string" where
  "trim s = rev (dropWhile is_space (rev (dropWhile is_space s)))"

text \<open>The character class \<^verbatim>\<open>[0-9a-zA-Z]\<close>.\<close>

definition is_alnum :: "char \<Rightarrow> bool" where
  "is_alnum c =
     (let n = (of_char c :: nat)
      in (48 \<le> n \<and> n \<le> 57) \<or> (97 \<le> n \<and> n \<le> 122) \<or> (65 \<le> n \<and> n \<le> 90))"

section \<open>Errors\<close>

text \<open>
  A value a remote call rejects with. \<open>CfError c\<close> is a response body that
  \<^verbatim>\<open>JSON.parse\<close> accepts as an object whose \<^verbatim>\<open>error_code\<close> is the string \<open>c\<close>;
  \<open>Plain s\<close> is any other rejected value (for instance the string \<^verbatim>\<open>EMPTY_BODY\<close>),
  on which \<^verbatim>\<open>JSON.parse\<close> throws or which carries no error code.
\<close>

datatype rejection = CfError string | Plain string

text \<open>
  What an action rejects with. The validation messages of the source, in order:
  \<^item> \<open>EndpointNotDefined\<close>: \<^verbatim>\<open>"endpoint" not defined, must be string.\<close>
  \<^item> \<open>TokenNotDefined\<close>: \<^verbatim>\<open>"token" not defined, must be object containing access/refresh token.\<close>
  \<^item> \<open>AppnameNotDefined\<close>: \<^verbatim>\<open>"appname" not defined, must be string.\<close>
  \<^item> \<open>OrgAndSpaceBoth\<close>: \<^verbatim>\<open>"org" and "space" must both be defined if either is defined.\<close>
  \<^item> \<open>RoutesNotArray\<close>: \<^verbatim>\<open>"routes" not defined, must be array containing org and space names as strings.\<close>
  \<^item> \<open>NoValidRouteNamesToMap\<close>: \<^verbatim>\<open>"routes" does not contain any valid route names to map (...).\<close>
  \<^item> \<open>OrgSpaceOrRoutes\<close>: \<^verbatim>\<open>either "org" & "space" must be defined or "routes" must be defined to map routes.\<close>
  \<^item> \<open>RoutesNotDefined\<close>: \<^verbatim>\<open>"routes" not defined, must be array containing route names as strings.\<close>
  \<^item> \<open>NoRouteNamesToUnmap\<close>: \<^verbatim>\<open>"routes" does not contain any route names to unmap.\<close>

  \<open>TypeError\<close> is the exception of a property read on \<^verbatim>\<open>null\<close> or \<^verbatim>\<open>undefined\<close> or of
  a call of something that is no function, \<open>AppNotFound n\<close> is \<^verbatim>\<open>App n not found.\<close>, and
  \<open>Rejected e\<close> passes on what a remote call rejected with.
\<close>

datatype error =
    EndpointNotDefined
  | TokenNotDefined
  | AppnameNotDefined
  | OrgAndSpaceBoth
  | RoutesNotArray
  | NoValidRouteNamesToMap
  | OrgSpaceOrRoutes
  | RoutesNotDefined
  | NoRouteNamesToUnmap
  | TypeError
  | AppNotFound string
  | Rejected rejection

text \<open>Reading property \<open>k\<close> (here only \<^verbatim>\<open>org\<close> and \<^verbatim>\<open>space\<close>) of a value.\<close>

fun get_prop :: "jsval \<Rightarrow> string \<Rightarrow> error + jsval" where
  "get_prop JUndefined k = Inl TypeError"
| "get_prop JNull k = Inl TypeError"
| "get_prop (JObj kvs) k = Inr (case map_of kvs k of None \<Rightarrow> JUndefined | Some v \<Rightarrow> v)"
| "get_prop v k = Inr JUndefined"

section \<open>Sets of strings\<close>

text \<open>
  A JavaScript \<^verbatim>\<open>Set\<close> iterates in insertion order: it is a list without duplicates.
  \<open>new_Set\<close> is \<^verbatim>\<open>new Set(iterable)\<close>, \<open>Set_delete\<close> is \<^verbatim>\<open>delete\<close>,
  \<open>Set_has\<close> is \<^verbatim>\<open>has\<close>.
\<close>

definition Set_add :: "'a \<Rightarrow> 'a list \<Rightarrow> 'a list" where
  "Set_add x s = (if x \<in> set s then s else s @ [x])"

definition new_Set :: "'a list \<Rightarrow> 'a list" where
  "new_Set xs = foldl (\<lambda>s x. Set_add x s) [] xs"

definition Set_delete :: "'a \<Rightarrow> 'a list \<Rightarrow> 'a list" where
  "Set_delete x s = filter (\<lambda>y. y \<noteq> x) s"

definition Set_has :: "'a list \<Rightarrow> 'a \<Rightarrow> bool" where
  "Set_has s x = (x \<in> set s)"

text \<open>
  A \<^verbatim>\<open>Set\<close> has a \<^verbatim>\<open>size\<close> and no \<^verbatim>\<open>length\<close>: reading \<^verbatim>\<open>length\<close> yields
  \<^verbatim>\<open>undefined\<close>, which is \<open>None\<close> here; a number would be \<open>Some n\<close>.
\<close>

definition Set_length :: "'a list \<Rightarrow> int option" where
  "Set_length s = None"

text \<open>The comparison \<^verbatim>\<open>v != 0\<close>: \<^verbatim>\<open>undefined\<close> is not equal to zero.\<close>

fun ne_zero :: "int option \<Rightarrow> bool" where
  "ne_zero None = True"
| "ne_zero (Some n) = (n \<noteq> 0)"

section \<open>The Input Validator\<close>

record args =
  endpoint :: jsval
  token :: jsval
  appname :: jsval
  org :: jsval
  space :: jsval
  routes :: jsval
  deleteAfterUnmap :: jsval

text \<open>
  \<^verbatim>\<open>!v || typeof v !== 'string' || !v.trim()\<close>: the disjunction stops at the first true
  operand, so \<^verbatim>\<open>trim\<close> is only ever called on a string.
\<close>

fun not_a_name :: "jsval \<Rightarrow> bool" where
  "not_a_name (JStr s) = (\<not> truthy (JStr s) \<or> \<not> truthy (JStr (trim s)))"
| "not_a_name v = True"

text \<open>
  Each validator returns the parameter bag as it leaves it, and what its promise settles
  with.
\<close>

definition validateArgsBasic :: "args \<Rightarrow> args \<times> (error + unit)" where
  "validateArgsBasic a =
     (if not_a_name (endpoint a) then (a, Inl EndpointNotDefined)
      else if \<not> truthy (token a) \<or> typeof (token a) \<noteq> TObject then (a, Inl TokenNotDefined)
      else if not_a_name (appname a) then (a, Inl AppnameNotDefined)
      else (a, Inr ()))"

fun validRouteSegment :: "jsval \<Rightarrow> bool" where
  "validRouteSegment (JStr s) = (s \<noteq> [] \<and> list_all is_alnum s)"
| "validRouteSegment v = False"

text \<open>
  \<^verbatim>\<open>args.routes.filter(r => validRouteSegment(r.org) && validRouteSegment(r.space))\<close>:
  the callback reads the properties of \<^verbatim>\<open>r\<close>, which throws on \<^verbatim>\<open>null\<close> and
  \<^verbatim>\<open>undefined\<close>; an exception in the callback ends the whole filter.
\<close>

fun filter_valid :: "jsval list \<Rightarrow> error + (jsval \<times> jsval) list" where
  "filter_valid [] = Inr []"
| "filter_valid (r # rs) =
     (case get_prop r ''org'' of
        Inl e \<Rightarrow> Inl e
      | Inr o1 \<Rightarrow>
          (case get_prop r ''space'' of
             Inl e \<Rightarrow> Inl e
           | Inr s1 \<Rightarrow>
               (case filter_valid rs of
                  Inl e \<Rightarrow> Inl e
                | Inr ps \<Rightarrow>
                    Inr (if validRouteSegment o1 \<and> validRouteSegment s1
                         then (o1, s1) # ps else ps))))"

text \<open>
  \<^verbatim>\<open>({org, space}) => org+'-'+space\<close>, applied to what the filter kept: both are
  strings there.
\<close>

fun org_dash_space :: "jsval \<times> jsval \<Rightarrow> string" where
  "org_dash_space (JStr o1, JStr s1) = o1 @ ''-'' @ s1"
| "org_dash_space p = []"

text \<open>\<^verbatim>\<open>args.routes || []\<close>, followed by \<^verbatim>\<open>push\<close>, on a value known to be falsy or an array.\<close>

fun or_empty_push :: "jsval \<Rightarrow> jsval \<Rightarrow> jsval" where
  "or_empty_push (JArr xs) x = JArr (xs @ [x])"
| "or_empty_push v x = JArr [x]"

fun elements :: "jsval \<Rightarrow> jsval list" where
  "elements (JArr xs) = xs"
| "elements v = []"

definition validateArgsForMapRoutes :: "args \<Rightarrow> args \<times> (error + string list)" where
  "validateArgsForMapRoutes a =
     (case snd (validateArgsBasic a) of
        Inl e \<Rightarrow> (a, Inl e)
      | Inr u \<Rightarrow>
          if (truthy (org a) \<and> \<not> truthy (space a)) \<or> (truthy (space a) \<and> \<not> truthy (org a))
          then (a, Inl OrgAndSpaceBoth)
          else if (truthy (org a) \<and> truthy (space a)) \<or> truthy (routes a) then
            if truthy (routes a) \<and> \<not> isArray (routes a) then (a, Inl RoutesNotArray)
            else
              let a' = (if truthy (org a) \<and> truthy (space a)
                        then a\<lparr>routes := or_empty_push (routes a)
                                 (JObj [(''org'', org a), (''space'', space a)])\<rparr>
                        else a)
              in (case filter_valid (elements (routes a')) of
                    Inl e \<Rightarrow> (a', Inl e)
                  | Inr ps \<Rightarrow>
                      let requestedRouteAdditions =
                            new_Set (filter (\<lambda>r. length r \<le> 63)
                                       (map org_dash_space ps))
                      in if ne_zero (Set_length requestedRouteAdditions)
                         then (a', Inr requestedRouteAdditions)
                         else (a', Inl NoValidRouteNamesToMap))
          else (a, Inl OrgSpaceOrRoutes))"

text \<open>
  \<^verbatim>\<open>args.routes.map(r => r.trim())\<close>: only a string has a \<^verbatim>\<open>trim\<close> method; on any
  other element the call throws.
\<close>

fun map_trim :: "jsval list \<Rightarrow> error + string list" where
  "map_trim [] = Inr []"
| "map_trim (JStr s # rs) =
     (case map_trim rs of Inl e \<Rightarrow> Inl e | Inr ts \<Rightarrow> Inr (trim s # ts))"
| "map_trim (v # rs) = Inl TypeError"

definition validateArgsForUnmapRoutes :: "args \<Rightarrow> args \<times> (error + string list)" where
  "validateArgsForUnmapRoutes a =
     (case snd (validateArgsBasic a) of
        Inl e \<Rightarrow> (a, Inl e)
      | Inr u \<Rightarrow>
          if \<not> truthy (routes a) \<or> \<not> isArray (routes a) then (a, Inl RoutesNotDefined)
          else
            (case map_trim (elements (routes a)) of
               Inl e \<Rightarrow> (a, Inl e)
             | Inr ts \<Rightarrow>
                 let requestedRouteDeletions = new_Set (filter (\<lambda>r. r \<noteq> []) ts)
                 in if ne_zero (Set_length requestedRouteDeletions)
                    then (a, Inr requestedRouteDeletions)
                    else (a, Inl NoRouteNamesToUnmap)))"

text \<open>
  Template literals and \<^verbatim>\<open>==\<close> use \<^verbatim>\<open>args.appname\<close> only after
  \<open>validateArgsBasic\<close> has found it to be a string.
\<close>

fun the_string :: "jsval \<Rightarrow> string" where
  "the_string (JStr s) = s"
| "the_string v = []"

section \<open>The Remote Resource Client\<close>

text \<open>
  What the platform answers with: an application resource carries \<^verbatim>\<open>metadata.guid\<close>, a
  route resource \<^verbatim>\<open>metadata.guid\<close>, \<^verbatim>\<open>entity.host\<close>, \<^verbatim>\<open>entity.domain_guid\<close> and
  \<^verbatim>\<open>entity.space_guid\<close>.
\<close>

record app_resource =
  app_metadata_guid :: string

record route_resource =
  guid :: string
  host :: string
  domain_guid :: string
  space_guid :: string

text \<open>
  The clients \<^verbatim>\<open>Apps\<close> and \<^verbatim>\<open>Routes\<close> that \<^verbatim>\<open>getCfClients\<close> builds are a parameter:
  every operation maps the state \<open>'w\<close> of the platform to a settled promise (\<open>Inl\<close> a
  rejection) and the next state, so every remote call settles. \<open>REST_request\<close> is the \<^verbatim>\<open>DELETE\<close> request on
  \<^verbatim>\<open>/v2/apps/app_guid/routes/route_guid\<close> under \<^verbatim>\<open>Apps.unassociateRoute\<close>.
\<close>

record 'w cf_clients =
  Apps_getApps :: "string \<Rightarrow> 'w \<Rightarrow> (rejection + app_resource list) \<times> 'w"
  Apps_getAppRoutes :: "string \<Rightarrow> 'w \<Rightarrow> (rejection + route_resource list) \<times> 'w"
  Apps_associateRoute :: "string \<Rightarrow> string \<Rightarrow> 'w \<Rightarrow> (rejection + unit) \<times> 'w"
  REST_request :: "string \<Rightarrow> string \<Rightarrow> 'w \<Rightarrow> (rejection + unit) \<times> 'w"
  Routes_add :: "string option \<Rightarrow> string option \<Rightarrow> string \<Rightarrow> 'w \<Rightarrow> (rejection + route_resource) \<times> 'w"
  Routes_getRoutes :: "string \<Rightarrow> 'w \<Rightarrow> (rejection + route_resource list) \<times> 'w"
  Routes_remove :: "string \<Rightarrow> 'w \<Rightarrow> (rejection + unit) \<times> 'w"

text \<open>The remote calls an action makes are recorded, in order, beside the platform's state.\<close>

datatype call =
    GetApps string
  | GetAppRoutes string
  | AssociateRoute string string
  | UnassociateRoute string string
  | RoutesAdd "string option" "string option" string
  | GetRoutes string
  | RoutesRemove string

type_synonym 'w session = "'w \<times> call list"

abbreviation calls :: "'w session \<Rightarrow> call list" where
  "calls s \<equiv> snd s"

definition invoke :: "('w \<Rightarrow> 'r \<times> 'w) \<Rightarrow> call \<Rightarrow> 'w session \<Rightarrow> 'r \<times> 'w session" where
  "invoke f c s = (case f (fst s) of (r, w') \<Rightarrow> (r, (w', snd s @ [c])))"

definition getApps :: "'w cf_clients \<Rightarrow> string \<Rightarrow> 'w session \<Rightarrow> (rejection + app_resource list) \<times> 'w session" where
  "getApps C name = invoke (Apps_getApps C name) (GetApps name)"

definition listAppRoutes :: "'w cf_clients \<Rightarrow> string \<Rightarrow> 'w session \<Rightarrow> (rejection + route_resource list) \<times> 'w session" where
  "listAppRoutes C app_guid = invoke (Apps_getAppRoutes C app_guid) (GetAppRoutes app_guid)"

definition associateRoute :: "'w cf_clients \<Rightarrow> string \<Rightarrow> string \<Rightarrow> 'w session \<Rightarrow> (rejection + unit) \<times> 'w session" where
  "associateRoute C app_guid route_guid =
     invoke (Apps_associateRoute C app_guid route_guid) (AssociateRoute app_guid route_guid)"

definition add :: "'w cf_clients \<Rightarrow> string option \<Rightarrow> string option \<Rightarrow> string \<Rightarrow> 'w session \<Rightarrow> (rejection + route_resource) \<times> 'w session" where
  "add C d s h = invoke (Routes_add C d s h) (RoutesAdd d s h)"

definition getRoutes :: "'w cf_clients \<Rightarrow> string \<Rightarrow> 'w session \<Rightarrow> (rejection + route_resource list) \<times> 'w session" where
  "getRoutes C h = invoke (Routes_getRoutes C h) (GetRoutes h)"

definition remove :: "'w cf_clients \<Rightarrow> string \<Rightarrow> 'w session \<Rightarrow> (rejection + unit) \<times> 'w session" where
  "remove C route_guid = invoke (Routes_remove C route_guid) (RoutesRemove route_guid)"

text \<open>
  \<^verbatim>\<open>Apps.unassociateRoute\<close> of \<^verbatim>\<open>enhanceApps\<close>: the rejection \<^verbatim>\<open>EMPTY_BODY\<close> of the
  request counts as success.
\<close>

definition unassociateRoute :: "'w cf_clients \<Rightarrow> string \<Rightarrow> string \<Rightarrow> 'w session \<Rightarrow> (rejection + unit) \<times> 'w session" where
  "unassociateRoute C app_guid route_guid s =
     (case invoke (REST_request C app_guid route_guid) (UnassociateRoute app_guid route_guid) s of
        (Inl e, s') \<Rightarrow> if e = Plain ''EMPTY_BODY'' then (Inr (), s') else (Inl e, s')
      | (Inr u, s') \<Rightarrow> (Inr u, s'))"

definition getAppRoutes :: "'w cf_clients \<Rightarrow> string \<Rightarrow> 'w session \<Rightarrow> (error + route_resource list \<times> string) \<times> 'w session" where
  "getAppRoutes C name s =
     (case getApps C name s of
        (Inl e, s1) \<Rightarrow> (Inl (Rejected e), s1)
      | (Inr resources, s1) \<Rightarrow>
          (case resources of
             [app] \<Rightarrow>
               (case listAppRoutes C (app_metadata_guid app) s1 of
                  (Inl e, s2) \<Rightarrow> (Inl (Rejected e), s2)
                | (Inr rs, s2) \<Rightarrow> (Inr (rs, app_metadata_guid app), s2))
           | _ \<Rightarrow> (Inl (AppNotFound name), s1)))"

section \<open>The Route Differ\<close>

record differ_result =
  out_domain_guid :: "string option"
  out_space_guid :: "string option"
  routesToAdd :: "string list"
  routesToDelete :: "route_resource list"

text \<open>The callback of the filter over the live routes, with the variables it assigns.\<close>

definition filter_callback :: "string \<Rightarrow> string list \<Rightarrow> string list \<Rightarrow> differ_result \<Rightarrow> route_resource \<Rightarrow> differ_result" where
  "filter_callback name requestedRouteAdditions requestedRouteDeletions acc r =
     (let acc1 = (if host r = name
                  then acc\<lparr>out_domain_guid := Some (domain_guid r),
                           out_space_guid := Some (space_guid r)\<rparr>
                  else acc);
          acc2 = (if Set_has requestedRouteAdditions (host r)
                  then acc1\<lparr>routesToAdd := Set_delete (host r) (routesToAdd acc1)\<rparr>
                  else acc1)
      in if Set_has requestedRouteDeletions (host r)
         then acc2\<lparr>routesToDelete := routesToDelete acc2 @ [r]\<rparr>
         else acc2)"

definition filterAddDeleteAndGetIds :: "route_resource list \<Rightarrow> string \<Rightarrow> string list \<Rightarrow> string list \<Rightarrow> differ_result" where
  "filterAddDeleteAndGetIds live name requestedRouteAdditions requestedRouteDeletions =
     foldl (filter_callback name requestedRouteAdditions requestedRouteDeletions)
       \<lparr>out_domain_guid = None, out_space_guid = None,
        routesToAdd = new_Set requestedRouteAdditions, routesToDelete = []\<rparr>
       live"

section \<open>The Mutation Executor\<close>

record outcome =
  route :: string
  ok :: bool

text \<open>
  The body of the reduction in \<^verbatim>\<open>addRoutes\<close>, one promise chain per host name:
  \<^verbatim>\<open>Routes.add\<close>, the handler of its rejection, \<^verbatim>\<open>Apps.associateRoute\<close>, and the two
  handlers that push the outcome. \<^verbatim>\<open>result.resources[0]\<close> of an empty list is
  \<^verbatim>\<open>undefined\<close> (\<open>None\<close>), and reading \<^verbatim>\<open>route.metadata\<close> of it throws.
\<close>

definition addRoutes_step :: "'w cf_clients \<Rightarrow> string \<Rightarrow> string option \<Rightarrow> string option \<Rightarrow> 'w session \<times> outcome list \<Rightarrow> string \<Rightarrow> 'w session \<times> outcome list" where
  "addRoutes_step C app_guid d_guid s_guid acc nextToAdd =
     (case acc of (s, list) \<Rightarrow>
        (case add C d_guid s_guid nextToAdd s of (addRoute, s1) \<Rightarrow>
           (case (case addRoute of
                    Inr r \<Rightarrow> (Inr (Some r), s1)
                  | Inl e \<Rightarrow>
                      if e = CfError ''CF-RouteHostTaken''
                      then (case getRoutes C nextToAdd s1 of
                              (Inl e', s') \<Rightarrow> (Inl (Rejected e'), s')
                            | (Inr resources, s') \<Rightarrow>
                                (Inr (case resources of [] \<Rightarrow> None | r # _ \<Rightarrow> Some r), s'))
                      else (Inl (Rejected e), s1)) of
              (found, s2) \<Rightarrow>
                (case (case found of
                         Inl e \<Rightarrow> (Inl e, s2)
                       | Inr None \<Rightarrow> (Inl TypeError, s2)
                       | Inr (Some r) \<Rightarrow>
                           (case associateRoute C app_guid (guid r) s2 of
                              (Inl e, s') \<Rightarrow> (Inl (Rejected e), s')
                            | (Inr u, s') \<Rightarrow> (Inr u, s'))) of
                   (Inr u, s3) \<Rightarrow> (s3, list @ [\<lparr>route = nextToAdd, ok = True\<rparr>])
                 | (Inl e, s3) \<Rightarrow> (s3, list @ [\<lparr>route = nextToAdd, ok = False\<rparr>])))))"

definition addRoutes :: "'w cf_clients \<Rightarrow> string list \<Rightarrow> string \<Rightarrow> string option \<Rightarrow> string option \<Rightarrow> 'w session \<Rightarrow> 'w session \<times> outcome list" where
  "addRoutes C rs app_guid d_guid s_guid s =
     foldl (addRoutes_step C app_guid d_guid s_guid) (s, []) rs"

text \<open>The body of the reduction in \<^verbatim>\<open>deleteRoutes\<close>.\<close>

definition deleteRoutes_step :: "'w cf_clients \<Rightarrow> string \<Rightarrow> jsval \<Rightarrow> 'w session \<times> outcome list \<Rightarrow> route_resource \<Rightarrow> 'w session \<times> outcome list" where
  "deleteRoutes_step C app_guid deleteAfterUnmap' acc nextToDelete =
     (case acc of (s, list) \<Rightarrow>
        (case (if deleteAfterUnmap' = JBool True
               then remove C (guid nextToDelete) s
               else unassociateRoute C app_guid (guid nextToDelete) s) of
           (Inr u, s1) \<Rightarrow> (s1, list @ [\<lparr>route = host nextToDelete, ok = True\<rparr>])
         | (Inl e, s1) \<Rightarrow> (s1, list @ [\<lparr>route = host nextToDelete, ok = False\<rparr>])))"

definition deleteRoutes :: "'w cf_clients \<Rightarrow> route_resource list \<Rightarrow> string \<Rightarrow> jsval \<Rightarrow> 'w session \<Rightarrow> 'w session \<times> outcome list" where
  "deleteRoutes C rs app_guid deleteAfterUnmap' s =
     foldl (deleteRoutes_step C app_guid deleteAfterUnmap') (s, []) rs"

section \<open>The Outcome Reporter\<close>

text \<open>
  The handlers of \<^verbatim>\<open>mapRoutes\<close> and \<^verbatim>\<open>unmapRoutes\<close> that take the executor's result:
  every reported route leaves the requested set, and what is left of the set is pushed.
\<close>

definition left_overs :: "outcome list \<Rightarrow> string list \<Rightarrow> string list" where
  "left_overs result requested = foldl (\<lambda>s r. Set_delete (route r) s) requested result"

definition map_status :: "outcome list \<Rightarrow> string list \<Rightarrow> outcome list" where
  "map_status result requestedRouteAdditions =
     result @ map (\<lambda>r. \<lparr>route = r, ok = True\<rparr>) (left_overs result requestedRouteAdditions)"

definition unmap_status :: "outcome list \<Rightarrow> string list \<Rightarrow> outcome list" where
  "unmap_status result requestedRouteDeletions =
     result @ map (\<lambda>r. \<lparr>route = r, ok = False\<rparr>) (left_overs result requestedRouteDeletions)"

section \<open>The actions\<close>

text \<open>
  An action returns the parameter bag as it leaves it, what its promise settles with, and
  the session. \<open>list_routes\<close> is the action \<^verbatim>\<open>list\<close>.
\<close>

abbreviation args_after :: "args \<times> 'r \<times> 'w session \<Rightarrow> args" where
  "args_after x \<equiv> fst x"

abbreviation settled :: "args \<times> 'r \<times> 'w session \<Rightarrow> 'r" where
  "settled x \<equiv> fst (snd x)"

abbreviation session_after :: "args \<times> 'r \<times> 'w session \<Rightarrow> 'w session" where
  "session_after x \<equiv> snd (snd x)"

definition list_routes :: "'w cf_clients \<Rightarrow> args \<Rightarrow> 'w session \<Rightarrow> args \<times> (error + string list) \<times> 'w session" where
  "list_routes C a s =
     (case validateArgsBasic a of
        (a', Inl e) \<Rightarrow> (a', Inl e, s)
      | (a', Inr u) \<Rightarrow>
          (case getAppRoutes C (the_string (appname a')) s of
             (Inl e, s1) \<Rightarrow> (a', Inl e, s1)
           | (Inr (live, app_guid), s1) \<Rightarrow> (a', Inr (map host live), s1)))"

definition mapRoutes :: "'w cf_clients \<Rightarrow> args \<Rightarrow> 'w session \<Rightarrow> args \<times> (error + outcome list) \<times> 'w session" where
  "mapRoutes C a s =
     (case validateArgsForMapRoutes a of
        (a', Inl e) \<Rightarrow> (a', Inl e, s)
      | (a', Inr requestedRouteAdditions) \<Rightarrow>
          (case getAppRoutes C (the_string (appname a')) s of
             (Inl e, s1) \<Rightarrow> (a', Inl e, s1)
           | (Inr (live, app_guid), s1) \<Rightarrow>
               (let d = filterAddDeleteAndGetIds live (the_string (appname a'))
                          requestedRouteAdditions (new_Set [])
                in case addRoutes C (routesToAdd d) app_guid
                          (out_domain_guid d) (out_space_guid d) s1 of
                     (s2, result) \<Rightarrow> (a', Inr (map_status result requestedRouteAdditions), s2))))"

definition unmapRoutes :: "'w cf_clients \<Rightarrow> args \<Rightarrow> 'w session \<Rightarrow> args \<times> (error + outcome list) \<times> 'w session" where
  "unmapRoutes C a s =
     (case validateArgsForUnmapRoutes a of
        (a', Inl e) \<Rightarrow> (a', Inl e, s)
      | (a', Inr requestedRouteDeletions) \<Rightarrow>
          (case getAppRoutes C (the_string (appname a')) s of
             (Inl e, s1) \<Rightarrow> (a', Inl e, s1)
           | (Inr (live, app_guid), s1) \<Rightarrow>
               (let d = filterAddDeleteAndGetIds live (the_string (appname a'))
                          (new_Set []) requestedRouteDeletions
                in case deleteRoutes C (routesToDelete d) app_guid (deleteAfterUnmap a') s1 of
                     (s2, result) \<Rightarrow> (a', Inr (unmap_status result requestedRouteDeletions), s2))))"

section \<open>A stub client and sample data\<close>

text \<open>
  A platform without state: one list of applications for every name, one list of live
  routes, \<open>create\<close> and \<open>lookup\<close> answer route creation and the search by host, and the
  calls on a route whose identifier satisfies \<open>fails\<close> are rejected.
\<close>

definition stub_clients :: "app_resource list \<Rightarrow> route_resource list \<Rightarrow> (string \<Rightarrow> rejection + route_resource) \<Rightarrow> (string \<Rightarrow> route_resource list) \<Rightarrow> (string \<Rightarrow> bool) \<Rightarrow> unit cf_clients" where
  "stub_clients apps live create lookup fails =
     \<lparr>Apps_getApps = (\<lambda>n w. (Inr apps, w)),
      Apps_getAppRoutes = (\<lambda>g w. (Inr live, w)),
      Apps_associateRoute = (\<lambda>a g w. (if fails g then Inl (Plain ''500'') else Inr (), w)),
      REST_request = (\<lambda>a g w. (if fails g then Inl (Plain ''500'') else Inl (Plain ''EMPTY_BODY''), w)),
      Routes_add = (\<lambda>d s h w. (create h, w)),
      Routes_getRoutes = (\<lambda>h w. (Inr (lookup h), w)),
      Routes_remove = (\<lambda>g w. (if fails g then Inl (Plain ''500'') else Inr (), w))\<rparr>"

definition sample_route :: "string \<Rightarrow> string \<Rightarrow> route_resource" where
  "sample_route g h = \<lparr>guid = g, host = h, domain_guid = ''D'', space_guid = ''S''\<rparr>"

definition sample_args :: "jsval \<Rightarrow> jsval \<Rightarrow> jsval \<Rightarrow> jsval \<Rightarrow> args" where
  "sample_args o1 s1 rs f =
     \<lparr>endpoint = JStr ''e'', token = JObj [], appname = JStr ''app'',
      org = o1, space = s1, routes = rs, deleteAfterUnmap = f\<rparr>"

section \<open>Facts about sets\<close>

lemma set_new_Set_aux: "set (foldl (\<lambda>s x. Set_add x s) acc xs) = set acc \<union> set xs"
  by (induction xs arbitrary: acc) (auto simp: Set_add_def)

lemma set_new_Set: "set (new_Set xs) = set xs"
  by (simp add: new_Set_def set_new_Set_aux)


lemma distinct_new_Set_aux: "distinct acc \<Longrightarrow> distinct (foldl (\<lambda>s x. Set_add x s) acc xs)"
  by (induction xs arbitrary: acc) (auto simp: Set_add_def)

lemma distinct_new_Set: "distinct (new_Set xs)"
  by (simp add: new_Set_def distinct_new_Set_aux)

lemma new_Set_aux_id: "distinct (acc @ xs) \<Longrightarrow> foldl (\<lambda>s x. Set_add x s) acc xs = acc @ xs"
  by (induction xs arbitrary: acc) (auto simp: Set_add_def)

lemma new_Set_distinct_id: "distinct xs \<Longrightarrow> new_Set xs = xs"
  using new_Set_aux_id [of "[]" xs] by (simp add: new_Set_def)

lemma left_overs_filter:
  "left_overs result requested = filter (\<lambda>h. h \<notin> route ` set result) requested"
  unfolding left_overs_def
  by (induction result arbitrary: requested) (auto simp: Set_delete_def intro: filter_cong)

section \<open>Facts about the Route Differ\<close>

text \<open>The single pass over the live routes, for any starting value of its variables.\<close>

lemma differ_fold:
  "foldl (filter_callback name adds dels) acc live =
     \<lparr>out_domain_guid = (case filter (\<lambda>r. host r = name) live of
                           [] \<Rightarrow> out_domain_guid acc | ms \<Rightarrow> Some (domain_guid (last ms))),
      out_space_guid = (case filter (\<lambda>r. host r = name) live of
                          [] \<Rightarrow> out_space_guid acc | ms \<Rightarrow> Some (space_guid (last ms))),
      routesToAdd = filter (\<lambda>h. h \<notin> host ` set live \<or> h \<notin> set adds) (routesToAdd acc),
      routesToDelete = routesToDelete acc @ filter (\<lambda>r. host r \<in> set dels) live\<rparr>"
proof (induction live arbitrary: acc)
  case Nil
  show ?case by simp
next
  case (Cons r live)
  show ?case
    apply (simp only: foldl_Cons Cons.IH)
    apply (auto simp: filter_callback_def Set_has_def Set_delete_def Let_def
                split: list.splits intro: filter_cong)
    done
qed

text \<open>
  C7. The Route Differ returns as \<open>routesToDelete\<close> exactly the live route records
  whose host is in the requested deletions (in the order of the live list), as
  \<open>routesToAdd\<close> the requested additions without every host of the live list, and as
  domain and space identifiers those of a live route whose host is the application's name
  (the last such route of the list), or nothing when there is no such route.
\<close>

theorem differ_outputs:
  "routesToDelete (filterAddDeleteAndGetIds live name adds dels) =
      filter (\<lambda>r. host r \<in> set dels) live \<and>
   set (routesToAdd (filterAddDeleteAndGetIds live name adds dels)) = set adds - host ` set live \<and>
   distinct (routesToAdd (filterAddDeleteAndGetIds live name adds dels)) \<and>
   (case filter (\<lambda>r. host r = name) live of
      [] \<Rightarrow> out_domain_guid (filterAddDeleteAndGetIds live name adds dels) = None \<and>
            out_space_guid (filterAddDeleteAndGetIds live name adds dels) = None
    | m # ms \<Rightarrow>
        last (m # ms) \<in> set live \<and> host (last (m # ms)) = name \<and>
        out_domain_guid (filterAddDeleteAndGetIds live name adds dels) =
          Some (domain_guid (last (m # ms))) \<and>
        out_space_guid (filterAddDeleteAndGetIds live name adds dels) =
          Some (space_guid (last (m # ms))))"
proof -
  have in_live: "last (m # ms) \<in> set live \<and> host (last (m # ms)) = name"
    if "filter (\<lambda>r. host r = name) live = m # ms" for m ms
  proof -
    have "last (m # ms) \<in> set (filter (\<lambda>r. host r = name) live)"
      unfolding that by (rule last_in_set) simp
    then show ?thesis by simp
  qed
  show ?thesis
    unfolding filterAddDeleteAndGetIds_def differ_fold
    using in_live
    by (auto simp: set_new_Set distinct_new_Set split: list.splits)
qed

theorem differ_outputs_witness:
  "routesToDelete (filterAddDeleteAndGetIds
      [sample_route ''g1'' ''app'', sample_route ''g2'' ''a-b'']
      ''app'' [''a-b'', ''c-d''] [''a-b'', ''x'']) = [sample_route ''g2'' ''a-b''] \<and>
   set (routesToAdd (filterAddDeleteAndGetIds
      [sample_route ''g1'' ''app'', sample_route ''g2'' ''a-b'']
      ''app'' [''a-b'', ''c-d''] [''a-b'', ''x''])) = {''c-d''} \<and>
   out_domain_guid (filterAddDeleteAndGetIds
      [sample_route ''g1'' ''app'', sample_route ''g2'' ''a-b'']
      ''app'' [''a-b'', ''c-d''] [''a-b'', ''x'']) = Some ''D''"
  using differ_outputs [of "[sample_route ''g1'' ''app'', sample_route ''g2'' ''a-b'']"
      "''app''" "[''a-b'', ''c-d'']" "[''a-b'', ''x'']"]
  by (simp add: sample_route_def)

section \<open>Facts about the Mutation Executor\<close>

lemma addRoutes_step_shape:
  "\<exists>s' b. addRoutes_step C app d sp (s, l) h = (s', l @ [\<lparr>route = h, ok = b\<rparr>])"
  by (auto simp: addRoutes_step_def split: prod.splits sum.splits option.splits list.splits)

lemma deleteRoutes_step_shape:
  "\<exists>s' b. deleteRoutes_step C app f (s, l) r = (s', l @ [\<lparr>route = host r, ok = b\<rparr>])"
  by (auto simp: deleteRoutes_step_def split: prod.splits sum.splits)

lemma foldl_addRoutes_routes:
  "map route (snd (foldl (addRoutes_step C app d sp) (s, l) hs)) = map route l @ hs"
proof (induction hs arbitrary: s l)
  case Nil
  show ?case by simp
next
  case (Cons h hs)
  obtain s' b where "addRoutes_step C app d sp (s, l) h = (s', l @ [\<lparr>route = h, ok = b\<rparr>])"
    using addRoutes_step_shape by blast
  then show ?case using Cons.IH [of s' "l @ [\<lparr>route = h, ok = b\<rparr>]"] by simp
qed

lemma foldl_deleteRoutes_routes:
  "map route (snd (foldl (deleteRoutes_step C app f) (s, l) rs)) = map route l @ map host rs"
proof (induction rs arbitrary: s l)
  case Nil
  show ?case by simp
next
  case (Cons r rs)
  obtain s' b where "deleteRoutes_step C app f (s, l) r = (s', l @ [\<lparr>route = host r, ok = b\<rparr>])"
    using deleteRoutes_step_shape by blast
  then show ?case using Cons.IH [of s' "l @ [\<lparr>route = host r, ok = b\<rparr>]"] by simp
qed

lemma invoke_calls: "calls (snd (invoke f c s)) = calls s @ [c]"
  by (simp add: invoke_def split: prod.splits)






lemma deleteRoutes_step_calls:
  "calls (fst (deleteRoutes_step C app f (s, l) r)) =
     calls s @ [if f = JBool True then RoutesRemove (guid r) else UnassociateRoute app (guid r)]"
  by (auto simp: deleteRoutes_step_def remove_def unassociateRoute_def invoke_def
           split: prod.splits sum.splits)

lemma foldl_deleteRoutes_calls:
  "calls (fst (foldl (deleteRoutes_step C app f) (s, l) rs)) =
     calls s @ map (\<lambda>r. if f = JBool True then RoutesRemove (guid r)
                         else UnassociateRoute app (guid r)) rs"
proof (induction rs arbitrary: s l)
  case Nil
  show ?case by simp
next
  case (Cons r rs)
  obtain s1 l1 where s1: "deleteRoutes_step C app f (s, l) r = (s1, l1)"
    by (cases "deleteRoutes_step C app f (s, l) r")
  have "calls s1 = calls s @ [if f = JBool True then RoutesRemove (guid r)
                              else UnassociateRoute app (guid r)]"
    using deleteRoutes_step_calls [of C app f s l r] s1 by simp
  then show ?case using Cons.IH [of s1 l1] s1 by simp
qed

text \<open>
  C5. For every route record the delete path processes: with \<^verbatim>\<open>deleteAfterUnmap\<close> unset
  the only remote call made for it is the disassociation of the route from the
  application, and no route is deleted; with \<^verbatim>\<open>deleteAfterUnmap\<close> the boolean
  \<^verbatim>\<open>true\<close> the call made for it is the deletion of the route.
\<close>

theorem destroy_or_unassociate:
  "calls (fst (deleteRoutes C rs app JUndefined s)) =
      calls s @ map (\<lambda>r. UnassociateRoute app (guid r)) rs \<and>
   calls (fst (deleteRoutes C rs app (JBool True) s)) =
      calls s @ map (\<lambda>r. RoutesRemove (guid r)) rs"
  by (simp add: deleteRoutes_def foldl_deleteRoutes_calls)

theorem destroy_or_unassociate_witness:
  "calls (fst (deleteRoutes (stub_clients [] [] (\<lambda>h. Inl (Plain ''x'')) (\<lambda>h. []) (\<lambda>g. False))
      [sample_route ''g1'' ''a'', sample_route ''g2'' ''b''] ''A'' JUndefined ((), []))) =
     [UnassociateRoute ''A'' ''g1'', UnassociateRoute ''A'' ''g2''] \<and>
   calls (fst (deleteRoutes (stub_clients [] [] (\<lambda>h. Inl (Plain ''x'')) (\<lambda>h. []) (\<lambda>g. False))
      [sample_route ''g1'' ''a'', sample_route ''g2'' ''b''] ''A'' (JBool True) ((), []))) =
     [RoutesRemove ''g1'', RoutesRemove ''g2'']"
  using destroy_or_unassociate [of "stub_clients [] [] (\<lambda>h. Inl (Plain ''x'')) (\<lambda>h. []) (\<lambda>g. False)"
      "[sample_route ''g1'' ''a'', sample_route ''g2'' ''b'']" "''A''" "((), [])"]
  by (simp add: sample_route_def)

lemma getAppRoutes_calls:
  "calls (snd (getAppRoutes C n s)) = calls s @ [GetApps n] \<or>
   (\<exists>g. calls (snd (getAppRoutes C n s)) = calls s @ [GetApps n, GetAppRoutes g])"
  by (auto simp: getAppRoutes_def getApps_def listAppRoutes_def invoke_def
           split: prod.splits sum.splits list.splits)

lemma validateArgsForUnmapRoutes_args: "fst (validateArgsForUnmapRoutes a) = a"
  by (simp add: validateArgsForUnmapRoutes_def Let_def split: sum.splits)

text \<open>
  C10. The test of the destroy intent is \<^verbatim>\<open>=== true\<close>: when \<^verbatim>\<open>deleteAfterUnmap\<close> is any
  value other than the boolean \<^verbatim>\<open>true\<close>, the delete path only disassociates every
  route it processes, and an unmap request makes no route-deletion call at all.
\<close>

theorem destroy_intent_is_strict:
  assumes "deleteAfterUnmap a \<noteq> JBool True"
  shows "calls (fst (deleteRoutes C rs app (deleteAfterUnmap a) s)) =
           calls s @ map (\<lambda>r. UnassociateRoute app (guid r)) rs \<and>
         (\<forall>g. RoutesRemove g \<in> set (calls (session_after (unmapRoutes C a s)))
                \<longrightarrow> RoutesRemove g \<in> set (calls s))"
proof
  show "calls (fst (deleteRoutes C rs app (deleteAfterUnmap a) s)) =
           calls s @ map (\<lambda>r. UnassociateRoute app (guid r)) rs"
    using assms by (simp add: deleteRoutes_def foldl_deleteRoutes_calls)
next
  show "\<forall>g. RoutesRemove g \<in> set (calls (session_after (unmapRoutes C a s)))
                \<longrightarrow> RoutesRemove g \<in> set (calls s)"
  proof (intro allI impI)
    fix g
    assume g: "RoutesRemove g \<in> set (calls (session_after (unmapRoutes C a s)))"
    obtain a' v where v: "validateArgsForUnmapRoutes a = (a', v)"
      by (cases "validateArgsForUnmapRoutes a")
    have a': "a' = a" using validateArgsForUnmapRoutes_args [of a] v by simp
    show "RoutesRemove g \<in> set (calls s)"
    proof (cases v)
      case (Inl e)
      then show ?thesis using g v by (simp add: unmapRoutes_def)
    next
      case (Inr req)
      obtain r1 s1 where r1: "getAppRoutes C (the_string (appname a)) s = (r1, s1)"
        by (cases "getAppRoutes C (the_string (appname a)) s")
      have s1: "RoutesRemove g \<in> set (calls s1) \<Longrightarrow> RoutesRemove g \<in> set (calls s)"
        using getAppRoutes_calls [of C "the_string (appname a)" s] r1 by auto
      show ?thesis
      proof (cases r1)
        case (Inl e)
        then show ?thesis using g v Inr r1 s1 a' by (simp add: unmapRoutes_def)
      next
        case (Inr p)
        obtain live app_guid where p: "p = (live, app_guid)" by (cases p)
        let ?rs = "routesToDelete (filterAddDeleteAndGetIds live (the_string (appname a))
                     (new_Set []) req)"
        have u: "session_after (unmapRoutes C a s) =
                   fst (deleteRoutes C ?rs app_guid (deleteAfterUnmap a) s1)"
          using v \<open>v = Inr req\<close> r1 Inr p a'
          by (simp add: unmapRoutes_def Let_def split: prod.splits)
        have "calls (fst (deleteRoutes C ?rs app_guid (deleteAfterUnmap a) s1)) =
                calls s1 @ map (\<lambda>r. UnassociateRoute app_guid (guid r)) ?rs"
          using assms by (simp add: deleteRoutes_def foldl_deleteRoutes_calls)
        then have "RoutesRemove g \<in> set (calls s1)"
          using g u by auto
        then show ?thesis by (rule s1)
      qed
    qed
  qed
qed

theorem destroy_intent_is_strict_witness:
  "deleteAfterUnmap (sample_args JUndefined JUndefined (JArr [JStr ''a'']) (JStr ''true'')) \<noteq> JBool True \<and>
   calls (fst (deleteRoutes (stub_clients [] [] (\<lambda>h. Inl (Plain ''x'')) (\<lambda>h. []) (\<lambda>g. False))
      [sample_route ''g1'' ''a''] ''A''
      (deleteAfterUnmap (sample_args JUndefined JUndefined (JArr [JStr ''a'']) (JStr ''true'')))
      ((), []))) = [UnassociateRoute ''A'' ''g1''] \<and>
   (\<forall>g. RoutesRemove g \<notin> set (calls (session_after (unmapRoutes
      (stub_clients [\<lparr>app_metadata_guid = ''A''\<rparr>] [sample_route ''g1'' ''a''] (\<lambda>h. Inl (Plain ''x'')) (\<lambda>h. []) (\<lambda>g. False))
      (sample_args JUndefined JUndefined (JArr [JStr ''a'']) (JStr ''true'')) ((), [])))))"
proof -
  have ne: "deleteAfterUnmap (sample_args JUndefined JUndefined (JArr [JStr ''a'']) (JStr ''true'')) \<noteq> JBool True"
    by (simp add: sample_args_def)
  have a: "calls (fst (deleteRoutes (stub_clients [] [] (\<lambda>h. Inl (Plain ''x'')) (\<lambda>h. []) (\<lambda>g. False))
      [sample_route ''g1'' ''a''] ''A''
      (deleteAfterUnmap (sample_args JUndefined JUndefined (JArr [JStr ''a'']) (JStr ''true'')))
      ((), []))) = [UnassociateRoute ''A'' ''g1'']"
    using destroy_intent_is_strict [OF ne, of
      "stub_clients [] [] (\<lambda>h. Inl (Plain ''x'')) (\<lambda>h. []) (\<lambda>g. False)"
      "[sample_route ''g1'' ''a'']" "''A''" "((), [])"]
    by (simp add: sample_route_def)
  have b: "\<forall>g. RoutesRemove g \<notin> set (calls (session_after (unmapRoutes
      (stub_clients [\<lparr>app_metadata_guid = ''A''\<rparr>] [sample_route ''g1'' ''a''] (\<lambda>h. Inl (Plain ''x'')) (\<lambda>h. []) (\<lambda>g. False))
      (sample_args JUndefined JUndefined (JArr [JStr ''a'']) (JStr ''true'')) ((), []))))"
    using destroy_intent_is_strict [OF ne, of
      "stub_clients [\<lparr>app_metadata_guid = ''A''\<rparr>] [sample_route ''g1'' ''a''] (\<lambda>h. Inl (Plain ''x'')) (\<lambda>h. []) (\<lambda>g. False)"
      "[]" "''A''" "((), [])"]
    by auto
  show ?thesis using ne a b by blast
qed



subsection \<open>Recovery from a taken host\<close>

text \<open>
  C3. On the add path, when the creation of the route for host name \<open>h\<close> is rejected with
  the conflict code \<^verbatim>\<open>CF-RouteHostTaken\<close>, the executor looks the route up by host. When
  the lookup yields at least one record, it associates the first record with the
  application and reports \<open>h\<close> with \<open>ok = True\<close> if the association succeeds and with
  \<open>ok = False\<close> if it is rejected; when the lookup is rejected or yields no record, it
  reports \<open>h\<close> with \<open>ok = False\<close> without associating anything.
\<close>

theorem host_taken_recovery:
  assumes "addRoutes C xs app d sp s = (sa, la)"
    and "add C d sp h sa = (Inl (CfError ''CF-RouteHostTaken''), sb)"
  shows "addRoutes C (xs @ [h]) app d sp s =
           (case getRoutes C h sb of
              (Inr (r # rs), sc) \<Rightarrow>
                (case associateRoute C app (guid r) sc of
                   (Inr u, sd) \<Rightarrow> (sd, la @ [\<lparr>route = h, ok = True\<rparr>])
                 | (Inl e, sd) \<Rightarrow> (sd, la @ [\<lparr>route = h, ok = False\<rparr>]))
            | (Inr [], sc) \<Rightarrow> (sc, la @ [\<lparr>route = h, ok = False\<rparr>])
            | (Inl e, sc) \<Rightarrow> (sc, la @ [\<lparr>route = h, ok = False\<rparr>])) \<and>
         calls (fst (addRoutes C (xs @ [h]) app d sp s)) =
           calls sb @ GetRoutes h #
             (case fst (getRoutes C h sb) of
                Inr (r # rs) \<Rightarrow> [AssociateRoute app (guid r)]
              | _ \<Rightarrow> [])"
proof -
  have step: "addRoutes C (xs @ [h]) app d sp s = addRoutes_step C app d sp (sa, la) h"
    using assms(1) by (simp add: addRoutes_def)
  obtain q sc where q: "getRoutes C h sb = (q, sc)" by (cases "getRoutes C h sb")
  have sc: "calls sc = calls sb @ [GetRoutes h]"
    using invoke_calls [of "Routes_getRoutes C h" "GetRoutes h" sb] q
    by (simp add: getRoutes_def)
  show ?thesis
  proof (cases q)
    case (Inl e)
    then show ?thesis
      using step assms(2) q sc by (simp add: addRoutes_step_def)
  next
    case (Inr found)
    show ?thesis
    proof (cases found)
      case Nil
      then show ?thesis
        using step assms(2) q sc Inr by (simp add: addRoutes_step_def)
    next
      case (Cons r rs)
      obtain u sd where u: "associateRoute C app (guid r) sc = (u, sd)"
        by (cases "associateRoute C app (guid r) sc")
      have sd: "calls sd = calls sc @ [AssociateRoute app (guid r)]"
        using invoke_calls [of "Apps_associateRoute C app (guid r)" "AssociateRoute app (guid r)" sc] u
        by (simp add: associateRoute_def)
      show ?thesis
        using step assms(2) q sc Inr Cons u sd
        by (cases u) (simp_all add: addRoutes_step_def)
    qed
  qed
qed

theorem host_taken_recovery_witness:
  "addRoutes (stub_clients [] [] (\<lambda>h. Inl (CfError ''CF-RouteHostTaken''))
       (\<lambda>h. [sample_route ''g1'' h]) (\<lambda>g. False))
     ([] @ [''h'']) ''A'' (Some ''D'') (Some ''S'') ((), []) =
     (((), [RoutesAdd (Some ''D'') (Some ''S'') ''h'', GetRoutes ''h'', AssociateRoute ''A'' ''g1'']),
      [\<lparr>route = ''h'', ok = True\<rparr>])"
  (is "addRoutes ?C _ _ _ _ _ = _")
proof -
  have a: "addRoutes ?C [] ''A'' (Some ''D'') (Some ''S'') ((), []) = (((), []), [])"
    by (simp add: addRoutes_def)
  have b: "add ?C (Some ''D'') (Some ''S'') ''h'' ((), []) =
             (Inl (CfError ''CF-RouteHostTaken''), ((), [RoutesAdd (Some ''D'') (Some ''S'') ''h'']))"
    by (simp add: add_def invoke_def stub_clients_def)
  show ?thesis
    using host_taken_recovery [OF a b]
    by (simp add: getRoutes_def associateRoute_def invoke_def stub_clients_def sample_route_def)
qed

theorem host_taken_counterexample:
  "addRoutes (stub_clients [] [] (\<lambda>h. Inl (CfError ''CF-RouteHostTaken''))
       (\<lambda>h. [sample_route ''g1'' h]) (\<lambda>g. g = ''g1''))
     [''h''] ''A'' (Some ''D'') (Some ''S'') ((), []) =
     (((), [RoutesAdd (Some ''D'') (Some ''S'') ''h'', GetRoutes ''h'', AssociateRoute ''A'' ''g1'']),
      [\<lparr>route = ''h'', ok = False\<rparr>]) \<and>
   addRoutes (stub_clients [] [] (\<lambda>h. Inl (CfError ''CF-RouteHostTaken''))
       (\<lambda>h. []) (\<lambda>g. False))
     [''h''] ''A'' (Some ''D'') (Some ''S'') ((), []) =
     (((), [RoutesAdd (Some ''D'') (Some ''S'') ''h'', GetRoutes ''h'']),
      [\<lparr>route = ''h'', ok = False\<rparr>])"
  by (simp add: addRoutes_def addRoutes_step_def add_def getRoutes_def associateRoute_def
        invoke_def stub_clients_def sample_route_def)

section \<open>Facts about the actions\<close>

lemma validateArgsForMapRoutes_distinct:
  "validateArgsForMapRoutes a = (a', Inr req) \<Longrightarrow> distinct req"
  by (auto simp: validateArgsForMapRoutes_def Let_def distinct_new_Set
           split: sum.splits if_splits)

lemma validateArgsForUnmapRoutes_distinct:
  "validateArgsForUnmapRoutes a = (a', Inr req) \<Longrightarrow> distinct req"
  by (auto simp: validateArgsForUnmapRoutes_def Let_def distinct_new_Set
           split: sum.splits if_splits)

lemma mapRoutes_run:
  assumes "validateArgsForMapRoutes a = (a', Inr req)"
    and "getAppRoutes C (the_string (appname a')) s = (Inr (live, g), sa)"
  shows "\<exists>result sb. mapRoutes C a s = (a', Inr (map_status result req), sb) \<and>
           map route result = filter (\<lambda>h. h \<notin> host ` set live) req"
proof -
  let ?D = "filterAddDeleteAndGetIds live (the_string (appname a')) req (new_Set [])"
  obtain sb result where
    r: "addRoutes C (routesToAdd ?D) g (out_domain_guid ?D) (out_space_guid ?D) sa = (sb, result)"
    by (cases "addRoutes C (routesToAdd ?D) g (out_domain_guid ?D) (out_space_guid ?D) sa")
  have "distinct req" using assms(1) by (rule validateArgsForMapRoutes_distinct)
  then have "routesToAdd ?D = filter (\<lambda>h. h \<notin> host ` set live) req"
    by (auto simp: filterAddDeleteAndGetIds_def differ_fold new_Set_distinct_id intro: filter_cong)
  moreover have "map route result = routesToAdd ?D"
    using foldl_addRoutes_routes [of C g "out_domain_guid ?D" "out_space_guid ?D" sa "[]" "routesToAdd ?D"] r
    by (simp add: addRoutes_def)
  moreover have "mapRoutes C a s = (a', Inr (map_status result req), sb)"
    using assms r by (simp add: mapRoutes_def Let_def)
  ultimately show ?thesis by auto
qed

lemma unmapRoutes_run:
  assumes "validateArgsForUnmapRoutes a = (a', Inr req)"
    and "getAppRoutes C (the_string (appname a')) s = (Inr (live, g), sa)"
  shows "\<exists>result sb. unmapRoutes C a s = (a', Inr (unmap_status result req), sb) \<and>
           map route result = map host (filter (\<lambda>r. host r \<in> set req) live)"
proof -
  let ?D = "filterAddDeleteAndGetIds live (the_string (appname a')) (new_Set []) req"
  obtain sb result where
    r: "deleteRoutes C (routesToDelete ?D) g (deleteAfterUnmap a') sa = (sb, result)"
    by (cases "deleteRoutes C (routesToDelete ?D) g (deleteAfterUnmap a') sa")
  have "routesToDelete ?D = filter (\<lambda>r. host r \<in> set req) live"
    by (simp add: filterAddDeleteAndGetIds_def differ_fold)
  moreover have "map route result = map host (routesToDelete ?D)"
    using foldl_deleteRoutes_routes [of C g "deleteAfterUnmap a'" sa "[]" "routesToDelete ?D"] r
    by (simp add: deleteRoutes_def)
  moreover have "unmapRoutes C a s = (a', Inr (unmap_status result req), sb)"
    using assms r by (simp add: unmapRoutes_def Let_def)
  ultimately show ?thesis by auto
qed

lemma map_status_entry:
  assumes "h \<in> set requested" and "h \<notin> route ` set result"
  shows "\<lparr>route = h, ok = True\<rparr> \<in> set (map_status result requested) \<and>
         \<lparr>route = h, ok = False\<rparr> \<notin> set (map_status result requested)"
proof -
  have "\<lparr>route = h, ok = b\<rparr> \<notin> set result" for b
    using assms(2) by force
  then show ?thesis
    using assms by (auto simp: map_status_def left_overs_filter)
qed

lemma unmap_status_entry:
  assumes "h \<in> set requested" and "h \<notin> route ` set result"
  shows "\<lparr>route = h, ok = False\<rparr> \<in> set (unmap_status result requested) \<and>
         \<lparr>route = h, ok = True\<rparr> \<notin> set (unmap_status result requested)"
proof -
  have "\<lparr>route = h, ok = b\<rparr> \<notin> set result" for b
    using assms(2) by force
  then show ?thesis
    using assms by (auto simp: unmap_status_def left_overs_filter)
qed

text \<open>
  C2. The leftover policy is asymmetric. A requested host name that is absent from the
  Mutation Executor's result list is reported by map with \<open>ok = True\<close> and by unmap with
  \<open>ok = False\<close>, and with no other entry. For a map request that passes validation and the
  lookup of the application, this holds of every requested host name that is already
  live; for such an unmap request, of every requested host name that no live route
  bears.
\<close>

theorem leftover_policy:
  "(h \<in> set requested \<and> h \<notin> route ` set result \<longrightarrow>
      \<lparr>route = h, ok = True\<rparr> \<in> set (map_status result requested) \<and>
      \<lparr>route = h, ok = False\<rparr> \<notin> set (map_status result requested) \<and>
      \<lparr>route = h, ok = False\<rparr> \<in> set (unmap_status result requested) \<and>
      \<lparr>route = h, ok = True\<rparr> \<notin> set (unmap_status result requested)) \<and>
   (validateArgsForMapRoutes a = (a', Inr req) \<and>
    getAppRoutes C (the_string (appname a')) s = (Inr (live, g), sa) \<and>
    h \<in> set req \<and> h \<in> host ` set live \<longrightarrow>
      (\<exists>status sb. mapRoutes C a s = (a', Inr status, sb) \<and>
         \<lparr>route = h, ok = True\<rparr> \<in> set status \<and> \<lparr>route = h, ok = False\<rparr> \<notin> set status)) \<and>
   (validateArgsForUnmapRoutes a = (a', Inr req) \<and>
    getAppRoutes C (the_string (appname a')) s = (Inr (live, g), sa) \<and>
    h \<in> set req \<and> h \<notin> host ` set live \<longrightarrow>
      (\<exists>status sb. unmapRoutes C a s = (a', Inr status, sb) \<and>
         \<lparr>route = h, ok = False\<rparr> \<in> set status \<and> \<lparr>route = h, ok = True\<rparr> \<notin> set status))"
proof (intro conjI impI)
  assume "h \<in> set requested \<and> h \<notin> route ` set result"
  then have h: "h \<in> set requested" "h \<notin> route ` set result" by simp_all
  show "\<lparr>route = h, ok = True\<rparr> \<in> set (map_status result requested)"
    "\<lparr>route = h, ok = False\<rparr> \<notin> set (map_status result requested)"
    using map_status_entry [OF h] by simp_all
  show "\<lparr>route = h, ok = False\<rparr> \<in> set (unmap_status result requested)"
    "\<lparr>route = h, ok = True\<rparr> \<notin> set (unmap_status result requested)"
    using unmap_status_entry [OF h] by simp_all
next
  assume a: "validateArgsForMapRoutes a = (a', Inr req) \<and>
    getAppRoutes C (the_string (appname a')) s = (Inr (live, g), sa) \<and>
    h \<in> set req \<and> h \<in> host ` set live"
  then obtain result sb where
    r: "mapRoutes C a s = (a', Inr (map_status result req), sb)"
      "map route result = filter (\<lambda>h. h \<notin> host ` set live) req"
    using mapRoutes_run [of a a' req C s live g sa] by blast
  have "set (map route result) = {h \<in> set req. h \<notin> host ` set live}"
    unfolding r(2) by simp
  then have "h \<notin> route ` set result" using a by auto
  then show "\<exists>status sb. mapRoutes C a s = (a', Inr status, sb) \<and>
         \<lparr>route = h, ok = True\<rparr> \<in> set status \<and> \<lparr>route = h, ok = False\<rparr> \<notin> set status"
    using r(1) a map_status_entry [of h req result] by blast
next
  assume a: "validateArgsForUnmapRoutes a = (a', Inr req) \<and>
    getAppRoutes C (the_string (appname a')) s = (Inr (live, g), sa) \<and>
    h \<in> set req \<and> h \<notin> host ` set live"
  then obtain result sb where
    r: "unmapRoutes C a s = (a', Inr (unmap_status result req), sb)"
      "map route result = map host (filter (\<lambda>r. host r \<in> set req) live)"
    using unmapRoutes_run [of a a' req C s live g sa] by blast
  have "set (map route result) = host ` {r \<in> set live. host r \<in> set req}"
    unfolding r(2) by simp
  then have "h \<notin> route ` set result" using a by auto
  then show "\<exists>status sb. unmapRoutes C a s = (a', Inr status, sb) \<and>
         \<lparr>route = h, ok = False\<rparr> \<in> set status \<and> \<lparr>route = h, ok = True\<rparr> \<notin> set status"
    using r(1) a unmap_status_entry [of h req result] by blast
qed

lemma sample_validate_map:
  "validateArgsForMapRoutes (sample_args (JStr ''x'') (JStr ''y'') JUndefined JUndefined) =
     (sample_args (JStr ''x'') (JStr ''y'')
        (JArr [JObj [(''org'', JStr ''x''), (''space'', JStr ''y'')]]) JUndefined,
      Inr [''x-y''])"
  by (simp add: validateArgsForMapRoutes_def validateArgsBasic_def sample_args_def trim_def
        is_space_def is_alnum_def new_Set_def Set_add_def Set_length_def Let_def)

lemma sample_validate_unmap:
  "validateArgsForUnmapRoutes (sample_args JUndefined JUndefined (JArr [JStr '' zz '']) JUndefined) =
     (sample_args JUndefined JUndefined (JArr [JStr '' zz '']) JUndefined, Inr [''zz''])"
  by (simp add: validateArgsForUnmapRoutes_def validateArgsBasic_def sample_args_def trim_def
        is_space_def new_Set_def Set_add_def Set_length_def Let_def)

lemma sample_getAppRoutes:
  "getAppRoutes (stub_clients [\<lparr>app_metadata_guid = ''A''\<rparr>] live create lookup fails) n ((), []) =
     (Inr (live, ''A''), ((), [GetApps n, GetAppRoutes ''A'']))"
  by (simp add: getAppRoutes_def getApps_def listAppRoutes_def invoke_def stub_clients_def)

theorem leftover_policy_witness:
  "\<lparr>route = ''a'', ok = True\<rparr> \<in> set (map_status [\<lparr>route = ''b'', ok = False\<rparr>] [''a'', ''b'']) \<and>
   \<lparr>route = ''a'', ok = False\<rparr> \<in> set (unmap_status [\<lparr>route = ''b'', ok = True\<rparr>] [''a'', ''b'']) \<and>
   (\<exists>status sb.
      mapRoutes (stub_clients [\<lparr>app_metadata_guid = ''A''\<rparr>]
                   [sample_route ''g0'' ''app'', sample_route ''g1'' ''x-y'']
                   (\<lambda>h. Inl (Plain ''x'')) (\<lambda>h. []) (\<lambda>g. False))
        (sample_args (JStr ''x'') (JStr ''y'') JUndefined JUndefined) ((), []) =
        (sample_args (JStr ''x'') (JStr ''y'')
           (JArr [JObj [(''org'', JStr ''x''), (''space'', JStr ''y'')]]) JUndefined,
         Inr status, sb) \<and>
      \<lparr>route = ''x-y'', ok = True\<rparr> \<in> set status \<and> \<lparr>route = ''x-y'', ok = False\<rparr> \<notin> set status) \<and>
   (\<exists>status sb.
      unmapRoutes (stub_clients [\<lparr>app_metadata_guid = ''A''\<rparr>]
                   [sample_route ''g0'' ''app'', sample_route ''g1'' ''x-y'']
                   (\<lambda>h. Inl (Plain ''x'')) (\<lambda>h. []) (\<lambda>g. False))
        (sample_args JUndefined JUndefined (JArr [JStr '' zz '']) JUndefined) ((), []) =
        (sample_args JUndefined JUndefined (JArr [JStr '' zz '']) JUndefined, Inr status, sb) \<and>
      \<lparr>route = ''zz'', ok = False\<rparr> \<in> set status \<and> \<lparr>route = ''zz'', ok = True\<rparr> \<notin> set status)"
  (is "?A \<and> ?B \<and> ?M \<and> ?U")
proof -
  let ?live = "[sample_route ''g0'' ''app'', sample_route ''g1'' ''x-y'']"
  let ?C = "stub_clients [\<lparr>app_metadata_guid = ''A''\<rparr>] ?live
              (\<lambda>h. Inl (Plain ''x'')) (\<lambda>h. []) (\<lambda>g. False)"
  have ab: "?A \<and> ?B"
    using leftover_policy [where h = "''a''" and requested = "[''a'', ''b'']"
        and result = "[\<lparr>route = ''b'', ok = False\<rparr>]", THEN conjunct1]
      leftover_policy [where h = "''a''" and requested = "[''a'', ''b'']"
        and result = "[\<lparr>route = ''b'', ok = True\<rparr>]", THEN conjunct1]
    by simp
  have n: "the_string (appname (sample_args o1 s1 rs f)) = ''app''" for o1 s1 rs f
    by (simp add: sample_args_def)
  have m: ?M
    using leftover_policy [where h = "''x-y''" and C = ?C and s = "((), [])" and live = ?live
        and a = "sample_args (JStr ''x'') (JStr ''y'') JUndefined JUndefined"
        and a' = "sample_args (JStr ''x'') (JStr ''y'')
                    (JArr [JObj [(''org'', JStr ''x''), (''space'', JStr ''y'')]]) JUndefined"
        and req = "[''x-y'']" and g = "''A''"
        and sa = "((), [GetApps ''app'', GetAppRoutes ''A''])",
        THEN conjunct2, THEN conjunct1]
      sample_validate_map sample_getAppRoutes [of ?live _ _ _ "''app''"]
    by (simp add: n sample_route_def)
  have u: ?U
    using leftover_policy [where h = "''zz''" and C = ?C and s = "((), [])" and live = ?live
        and a = "sample_args JUndefined JUndefined (JArr [JStr '' zz '']) JUndefined"
        and a' = "sample_args JUndefined JUndefined (JArr [JStr '' zz '']) JUndefined"
        and req = "[''zz'']" and g = "''A''"
        and sa = "((), [GetApps ''app'', GetAppRoutes ''A''])",
        THEN conjunct2, THEN conjunct2]
      sample_validate_unmap sample_getAppRoutes [of ?live _ _ _ "''app''"]
    by (simp add: n sample_route_def)
  show ?thesis using ab m u by blast
qed

text \<open>
  C1. For every map request that passes validation and the lookup of the application,
  the status list holds exactly one entry per requested host name: no requested host
  name is missing, none appears twice, and no other host name appears. For every such
  unmap request, the status list holds one entry for each live route record whose host
  was requested, in the order of the live routes, followed by one entry for each
  requested host name that no live route bears: its host names are exactly the requested
  ones, and each appears exactly once when the live routes bear distinct hosts.
\<close>

theorem full_coverage:
  "(validateArgsForMapRoutes a = (a', Inr req) \<and>
    getAppRoutes C (the_string (appname a')) s = (Inr (live, g), sa) \<longrightarrow>
      (\<exists>status sb. mapRoutes C a s = (a', Inr status, sb) \<and>
         map route status =
           filter (\<lambda>h. h \<notin> host ` set live) req @ filter (\<lambda>h. h \<in> host ` set live) req \<and>
         distinct (map route status) \<and> set (map route status) = set req)) \<and>
   (validateArgsForUnmapRoutes a = (a', Inr req) \<and>
    getAppRoutes C (the_string (appname a')) s = (Inr (live, g), sa) \<longrightarrow>
      (\<exists>status sb. unmapRoutes C a s = (a', Inr status, sb) \<and>
         map route status =
           map host (filter (\<lambda>r. host r \<in> set req) live) @
           filter (\<lambda>h. h \<notin> host ` set live) req \<and>
         set (map route status) = set req \<and>
         (distinct (map host live) \<longrightarrow> distinct (map route status))))"
proof (intro conjI impI)
  assume a: "validateArgsForMapRoutes a = (a', Inr req) \<and>
    getAppRoutes C (the_string (appname a')) s = (Inr (live, g), sa)"
  then obtain result sb where
    r: "mapRoutes C a s = (a', Inr (map_status result req), sb)"
      "map route result = filter (\<lambda>h. h \<notin> host ` set live) req"
    using mapRoutes_run [of a a' req C s live g sa] by blast
  have d: "distinct req" using a validateArgsForMapRoutes_distinct by blast
  have set_r: "route ` set result = {h \<in> set req. h \<notin> host ` set live}"
    using r(2) by (metis set_filter set_map)
  have lo: "left_overs result req = filter (\<lambda>h. h \<in> host ` set live) req"
    unfolding left_overs_filter set_r by (auto intro: filter_cong)
  have m: "map route (map_status result req) =
      filter (\<lambda>h. h \<notin> host ` set live) req @ filter (\<lambda>h. h \<in> host ` set live) req"
    by (simp add: map_status_def r(2) lo comp_def)
  have "distinct (map route (map_status result req))"
    unfolding m using d by auto
  moreover have "set (map route (map_status result req)) = set req"
    unfolding m by auto
  ultimately show "\<exists>status sb. mapRoutes C a s = (a', Inr status, sb) \<and>
         map route status =
           filter (\<lambda>h. h \<notin> host ` set live) req @ filter (\<lambda>h. h \<in> host ` set live) req \<and>
         distinct (map route status) \<and> set (map route status) = set req"
    using r(1) m by blast
next
  assume a: "validateArgsForUnmapRoutes a = (a', Inr req) \<and>
    getAppRoutes C (the_string (appname a')) s = (Inr (live, g), sa)"
  then obtain result sb where
    r: "unmapRoutes C a s = (a', Inr (unmap_status result req), sb)"
      "map route result = map host (filter (\<lambda>r. host r \<in> set req) live)"
    using unmapRoutes_run [of a a' req C s live g sa] by blast
  have d: "distinct req" using a validateArgsForUnmapRoutes_distinct by blast
  have set_r: "route ` set result = host ` {r \<in> set live. host r \<in> set req}"
    using r(2) by (metis set_filter set_map)
  have lo: "left_overs result req = filter (\<lambda>h. h \<notin> host ` set live) req"
    unfolding left_overs_filter set_r by (auto intro: filter_cong)
  have m: "map route (unmap_status result req) =
      map host (filter (\<lambda>r. host r \<in> set req) live) @ filter (\<lambda>h. h \<notin> host ` set live) req"
    by (simp add: unmap_status_def r(2) lo comp_def)
  have s: "set (map route (unmap_status result req)) = set req"
    unfolding m by auto
  have "distinct (map route (unmap_status result req))" if "distinct (map host live)"
    unfolding m using d that by (auto simp: distinct_map_filter)
  then show "\<exists>status sb. unmapRoutes C a s = (a', Inr status, sb) \<and>
         map route status =
           map host (filter (\<lambda>r. host r \<in> set req) live) @
           filter (\<lambda>h. h \<notin> host ` set live) req \<and>
         set (map route status) = set req \<and>
         (distinct (map host live) \<longrightarrow> distinct (map route status))"
    using r(1) m s by blast
qed

theorem full_coverage_witness:
  "(\<exists>status sb.
      mapRoutes (stub_clients [\<lparr>app_metadata_guid = ''A''\<rparr>]
                   [sample_route ''g0'' ''app'', sample_route ''g1'' ''x-y'']
                   (\<lambda>h. Inl (Plain ''x'')) (\<lambda>h. []) (\<lambda>g. False))
        (sample_args (JStr ''x'') (JStr ''y'') JUndefined JUndefined) ((), []) =
        (sample_args (JStr ''x'') (JStr ''y'')
           (JArr [JObj [(''org'', JStr ''x''), (''space'', JStr ''y'')]]) JUndefined,
         Inr status, sb) \<and>
      map route status = [''x-y'']) \<and>
   (\<exists>status sb.
      unmapRoutes (stub_clients [\<lparr>app_metadata_guid = ''A''\<rparr>]
                   [sample_route ''g0'' ''app'', sample_route ''g1'' ''x-y'']
                   (\<lambda>h. Inl (Plain ''x'')) (\<lambda>h. []) (\<lambda>g. False))
        (sample_args JUndefined JUndefined (JArr [JStr '' zz '']) JUndefined) ((), []) =
        (sample_args JUndefined JUndefined (JArr [JStr '' zz '']) JUndefined, Inr status, sb) \<and>
      map route status = [''zz''] \<and> distinct (map route status))"
  (is "?M \<and> ?U")
proof -
  let ?live = "[sample_route ''g0'' ''app'', sample_route ''g1'' ''x-y'']"
  let ?C = "stub_clients [\<lparr>app_metadata_guid = ''A''\<rparr>] ?live
              (\<lambda>h. Inl (Plain ''x'')) (\<lambda>h. []) (\<lambda>g. False)"
  have n: "the_string (appname (sample_args o1 s1 rs f)) = ''app''" for o1 s1 rs f
    by (simp add: sample_args_def)
  have m: ?M
    using full_coverage [where C = ?C and s = "((), [])" and live = ?live
        and a = "sample_args (JStr ''x'') (JStr ''y'') JUndefined JUndefined"
        and a' = "sample_args (JStr ''x'') (JStr ''y'')
                    (JArr [JObj [(''org'', JStr ''x''), (''space'', JStr ''y'')]]) JUndefined"
        and req = "[''x-y'']" and g = "''A''"
        and sa = "((), [GetApps ''app'', GetAppRoutes ''A''])", THEN conjunct1]
      sample_validate_map sample_getAppRoutes [of ?live _ _ _ "''app''"]
    by (auto simp: n sample_route_def)
  have u: ?U
    using full_coverage [where C = ?C and s = "((), [])" and live = ?live
        and a = "sample_args JUndefined JUndefined (JArr [JStr '' zz '']) JUndefined"
        and a' = "sample_args JUndefined JUndefined (JArr [JStr '' zz '']) JUndefined"
        and req = "[''zz'']" and g = "''A''"
        and sa = "((), [GetApps ''app'', GetAppRoutes ''A''])", THEN conjunct2]
      sample_validate_unmap sample_getAppRoutes [of ?live _ _ _ "''app''"]
    by (auto simp: n sample_route_def)
  show ?thesis using m u by blast
qed

lemma sample_validate_unmap_a:
  "validateArgsForUnmapRoutes (sample_args JUndefined JUndefined (JArr [JStr ''a'']) JUndefined) =
     (sample_args JUndefined JUndefined (JArr [JStr ''a'']) JUndefined, Inr [''a''])"
  by (simp add: validateArgsForUnmapRoutes_def validateArgsBasic_def sample_args_def trim_def
        is_space_def new_Set_def Set_add_def Set_length_def Let_def)

theorem full_coverage_counterexample:
  "validateArgsForUnmapRoutes (sample_args JUndefined JUndefined (JArr [JStr ''a'']) JUndefined) =
     (sample_args JUndefined JUndefined (JArr [JStr ''a'']) JUndefined, Inr [''a'']) \<and>
   unmapRoutes (stub_clients [\<lparr>app_metadata_guid = ''A''\<rparr>]
                  [sample_route ''g1'' ''a'', sample_route ''g2'' ''a'']
                  (\<lambda>h. Inl (Plain ''x'')) (\<lambda>h. []) (\<lambda>g. False))
     (sample_args JUndefined JUndefined (JArr [JStr ''a'']) JUndefined) ((), []) =
     (sample_args JUndefined JUndefined (JArr [JStr ''a'']) JUndefined,
      Inr [\<lparr>route = ''a'', ok = True\<rparr>, \<lparr>route = ''a'', ok = True\<rparr>],
      ((), [GetApps ''app'', GetAppRoutes ''A'',
            UnassociateRoute ''A'' ''g1'', UnassociateRoute ''A'' ''g2'']))"
  (is "?V \<and> unmapRoutes ?C ?a _ = _")
proof -
  let ?live = "[sample_route ''g1'' ''a'', sample_route ''g2'' ''a'']"
  let ?sa = "((), [GetApps ''app'', GetAppRoutes ''A''])"
  have v: ?V by (rule sample_validate_unmap_a)
  have n: "the_string (appname ?a) = ''app''" and f: "deleteAfterUnmap ?a = JUndefined"
    by (simp_all add: sample_args_def)
  have g: "getAppRoutes ?C ''app'' ((), []) = (Inr (?live, ''A''), ?sa)"
    by (rule sample_getAppRoutes)
  have d: "routesToDelete (filterAddDeleteAndGetIds ?live ''app'' (new_Set []) [''a'']) = ?live"
    by (simp add: filterAddDeleteAndGetIds_def filter_callback_def Set_has_def new_Set_def
          sample_route_def)
  have e: "deleteRoutes ?C ?live ''A'' JUndefined ?sa =
             (((), [GetApps ''app'', GetAppRoutes ''A'',
                    UnassociateRoute ''A'' ''g1'', UnassociateRoute ''A'' ''g2'']),
              [\<lparr>route = ''a'', ok = True\<rparr>, \<lparr>route = ''a'', ok = True\<rparr>])"
    by (simp add: deleteRoutes_def deleteRoutes_step_def unassociateRoute_def invoke_def
          stub_clients_def sample_route_def)
  have u: "unmap_status [\<lparr>route = ''a'', ok = True\<rparr>, \<lparr>route = ''a'', ok = True\<rparr>] [''a''] =
             [\<lparr>route = ''a'', ok = True\<rparr>, \<lparr>route = ''a'', ok = True\<rparr>]"
    by (simp add: unmap_status_def left_overs_def Set_delete_def)
  show ?thesis
    by (simp add: unmapRoutes_def v n f g d e u)
qed

section \<open>Facts about the Input Validator\<close>

lemma validateArgsBasic_args: "fst (validateArgsBasic a) = a"
  by (simp add: validateArgsBasic_def)

lemma or_empty_push_elements:
  "isArray v \<or> \<not> truthy v \<Longrightarrow> or_empty_push v x = JArr (elements v @ [x])"
  by (cases v) simp_all

lemma validateArgsForMapRoutes_args:
  "fst (validateArgsForMapRoutes a) =
     (if snd (validateArgsBasic a) = Inr () \<and> truthy (org a) \<and> truthy (space a) \<and>
         (isArray (routes a) \<or> \<not> truthy (routes a))
      then a\<lparr>routes := JArr (elements (routes a) @
                               [JObj [(''org'', org a), (''space'', space a)]])\<rparr>
      else a)"
proof (cases "snd (validateArgsBasic a)")
  case (Inl e)
  then show ?thesis by (simp add: validateArgsForMapRoutes_def)
next
  case (Inr u)
  show ?thesis
  proof (cases "truthy (org a) \<and> truthy (space a) \<and> (isArray (routes a) \<or> \<not> truthy (routes a))")
    case True
    then have "or_empty_push (routes a) (JObj [(''org'', org a), (''space'', space a)]) =
                 JArr (elements (routes a) @ [JObj [(''org'', org a), (''space'', space a)]])"
      using or_empty_push_elements by blast
    then show ?thesis
      using True Inr by (auto simp: validateArgsForMapRoutes_def Let_def split: sum.splits)
  next
    case False
    then show ?thesis
      using Inr by (auto simp: validateArgsForMapRoutes_def Let_def split: sum.splits)
  qed
qed

lemma validateArgsForMapRoutes_appname:
  "appname (fst (validateArgsForMapRoutes a)) = appname a"
  by (simp add: validateArgsForMapRoutes_args)

text \<open>
  C8. The validators of list and of unmap leave the request record unchanged. The
  validator of map leaves it unchanged except when the basic checks pass, \<^verbatim>\<open>org\<close> and
  \<^verbatim>\<open>space\<close> are both given and \<^verbatim>\<open>routes\<close> is absent or an array: then it appends the
  pair of \<^verbatim>\<open>org\<close> and \<^verbatim>\<open>space\<close> to the \<^verbatim>\<open>routes\<close> array of the record (an empty array when
  \<^verbatim>\<open>routes\<close> was absent), and changes no other field.
\<close>

theorem validation_frame:
  "fst (validateArgsBasic a) = a \<and>
   fst (validateArgsForUnmapRoutes a) = a \<and>
   fst (validateArgsForMapRoutes a) =
     (if snd (validateArgsBasic a) = Inr () \<and> truthy (org a) \<and> truthy (space a) \<and>
         (isArray (routes a) \<or> \<not> truthy (routes a))
      then a\<lparr>routes := JArr (elements (routes a) @
                               [JObj [(''org'', org a), (''space'', space a)]])\<rparr>
      else a)"
  using validateArgsBasic_args validateArgsForUnmapRoutes_args validateArgsForMapRoutes_args
  by blast

lemma sample_basic: "snd (validateArgsBasic (sample_args o1 s1 rs f)) = Inr ()"
  by (simp add: validateArgsBasic_def sample_args_def trim_def is_space_def)

theorem validation_frame_witness:
  "fst (validateArgsForMapRoutes
          (sample_args JUndefined JUndefined (JArr [JObj [(''org'', JStr ''x''), (''space'', JStr ''y'')]])
             JUndefined)) =
     sample_args JUndefined JUndefined (JArr [JObj [(''org'', JStr ''x''), (''space'', JStr ''y'')]])
       JUndefined \<and>
   fst (validateArgsForMapRoutes
          (sample_args (JStr ''x'') (JStr ''y'') (JArr [JStr ''r'']) JUndefined)) =
     sample_args (JStr ''x'') (JStr ''y'')
       (JArr [JStr ''r'', JObj [(''org'', JStr ''x''), (''space'', JStr ''y'')]]) JUndefined \<and>
   fst (validateArgsForUnmapRoutes
          (sample_args (JStr ''x'') (JStr ''y'') (JArr [JStr ''r'']) JUndefined)) =
     sample_args (JStr ''x'') (JStr ''y'') (JArr [JStr ''r'']) JUndefined"
  using validation_frame [of "sample_args JUndefined JUndefined
            (JArr [JObj [(''org'', JStr ''x''), (''space'', JStr ''y'')]]) JUndefined"]
    validation_frame [of "sample_args (JStr ''x'') (JStr ''y'') (JArr [JStr ''r'']) JUndefined"]
  by (simp add: sample_basic) (simp add: sample_args_def)

theorem validation_frame_counterexample:
  "fst (validateArgsForMapRoutes (sample_args (JStr ''x'') (JStr ''y'') JUndefined JUndefined)) \<noteq>
     sample_args (JStr ''x'') (JStr ''y'') JUndefined JUndefined \<and>
   routes (fst (validateArgsForMapRoutes
                  (sample_args (JStr ''x'') (JStr ''y'') (JArr []) JUndefined))) =
     JArr [JObj [(''org'', JStr ''x''), (''space'', JStr ''y'')]]"
  by (simp add: validateArgsForMapRoutes_args sample_basic) (simp add: sample_args_def)

section \<open>Facts about the lookup of the application\<close>

lemma getAppRoutes_not_one:
  assumes "Apps_getApps C n (fst s) = (Inr apps, w)" and "length apps \<noteq> 1"
  shows "getAppRoutes C n s = (Inl (AppNotFound n), (w, calls s @ [GetApps n]))"
  using assms
  by (cases apps rule: remdups_adj.cases)
     (simp_all add: getAppRoutes_def getApps_def invoke_def)

text \<open>
  C9. When the lookup of the application by name answers with a list that does not hold
  exactly one record, every action whose validation has passed rejects with
  \<^verbatim>\<open>App ... not found.\<close>: the lookup is the only remote call it has made, so the live
  routes are not read, nothing is diffed and no route is created, associated,
  disassociated or deleted.
\<close>

theorem lookup_failure_aborts:
  assumes "Apps_getApps C (the_string (appname a)) (fst s) = (Inr apps, w)"
    and "length apps \<noteq> 1"
  shows "(snd (validateArgsBasic a) = Inr () \<longrightarrow>
            list_routes C a s =
              (a, Inl (AppNotFound (the_string (appname a))),
               (w, calls s @ [GetApps (the_string (appname a))]))) \<and>
         (\<forall>a' req. validateArgsForMapRoutes a = (a', Inr req) \<longrightarrow>
            mapRoutes C a s =
              (a', Inl (AppNotFound (the_string (appname a))),
               (w, calls s @ [GetApps (the_string (appname a))]))) \<and>
         (\<forall>a' req. validateArgsForUnmapRoutes a = (a', Inr req) \<longrightarrow>
            unmapRoutes C a s =
              (a', Inl (AppNotFound (the_string (appname a))),
               (w, calls s @ [GetApps (the_string (appname a))])))"
proof (intro conjI allI impI)
  note g = getAppRoutes_not_one [OF assms]
  {
    assume "snd (validateArgsBasic a) = Inr ()"
    then have "validateArgsBasic a = (a, Inr ())"
      using validateArgsBasic_args [of a] by (cases "validateArgsBasic a") simp
    then show "list_routes C a s =
              (a, Inl (AppNotFound (the_string (appname a))),
               (w, calls s @ [GetApps (the_string (appname a))]))"
      using g by (simp add: list_routes_def)
  next
    fix a' req
    assume v: "validateArgsForMapRoutes a = (a', Inr req)"
    then have "appname a' = appname a"
      using validateArgsForMapRoutes_appname [of a] by simp
    then show "mapRoutes C a s =
              (a', Inl (AppNotFound (the_string (appname a))),
               (w, calls s @ [GetApps (the_string (appname a))]))"
      using v g by (simp add: mapRoutes_def)
  next
    fix a' req
    assume v: "validateArgsForUnmapRoutes a = (a', Inr req)"
    then have "a' = a"
      using validateArgsForUnmapRoutes_args [of a] by simp
    then show "unmapRoutes C a s =
              (a', Inl (AppNotFound (the_string (appname a))),
               (w, calls s @ [GetApps (the_string (appname a))]))"
      using v g by (simp add: unmapRoutes_def)
  }
qed

theorem lookup_failure_aborts_witness:
  "list_routes (stub_clients [] [sample_route ''g1'' ''a''] (\<lambda>h. Inl (Plain ''x'')) (\<lambda>h. []) (\<lambda>g. False))
     (sample_args JUndefined JUndefined JUndefined JUndefined) ((), []) =
     (sample_args JUndefined JUndefined JUndefined JUndefined, Inl (AppNotFound ''app''),
      ((), [GetApps ''app''])) \<and>
   mapRoutes (stub_clients [\<lparr>app_metadata_guid = ''A''\<rparr>, \<lparr>app_metadata_guid = ''B''\<rparr>]
                [sample_route ''g1'' ''a''] (\<lambda>h. Inl (Plain ''x'')) (\<lambda>h. []) (\<lambda>g. False))
     (sample_args (JStr ''x'') (JStr ''y'') JUndefined JUndefined) ((), []) =
     (sample_args (JStr ''x'') (JStr ''y'')
        (JArr [JObj [(''org'', JStr ''x''), (''space'', JStr ''y'')]]) JUndefined,
      Inl (AppNotFound ''app''), ((), [GetApps ''app''])) \<and>
   unmapRoutes (stub_clients [] [sample_route ''g1'' ''a''] (\<lambda>h. Inl (Plain ''x'')) (\<lambda>h. []) (\<lambda>g. False))
     (sample_args JUndefined JUndefined (JArr [JStr ''a'']) JUndefined) ((), []) =
     (sample_args JUndefined JUndefined (JArr [JStr ''a'']) JUndefined,
      Inl (AppNotFound ''app''), ((), [GetApps ''app'']))"
  (is "?L \<and> ?M \<and> ?U")
proof -
  have n: "the_string (appname (sample_args o1 s1 rs f)) = ''app''" for o1 s1 rs f
    by (simp add: sample_args_def)
  have zero: "Apps_getApps (stub_clients [] live create lookup fails) n (fst ((), [])) = (Inr [], ())"
    for live create lookup fails n
    by (simp add: stub_clients_def)
  have two: "Apps_getApps (stub_clients [\<lparr>app_metadata_guid = ''A''\<rparr>, \<lparr>app_metadata_guid = ''B''\<rparr>]
                 live create lookup fails) n (fst ((), [])) =
               (Inr [\<lparr>app_metadata_guid = ''A''\<rparr>, \<lparr>app_metadata_guid = ''B''\<rparr>], ())"
    for live create lookup fails n
    by (simp add: stub_clients_def)
  have l: ?L
    using lookup_failure_aborts [OF zero, of "sample_args JUndefined JUndefined JUndefined JUndefined",
        THEN conjunct1]
    by (simp add: sample_basic n)
  have m: ?M
    using lookup_failure_aborts [OF two, of "sample_args (JStr ''x'') (JStr ''y'') JUndefined JUndefined",
        THEN conjunct2, THEN conjunct1] sample_validate_map
    by (simp add: n)
  have u: ?U
    using lookup_failure_aborts [OF zero, of "sample_args JUndefined JUndefined (JArr [JStr ''a'']) JUndefined",
        THEN conjunct2, THEN conjunct2] sample_validate_unmap_a
    by (simp add: n)
  show ?thesis using l m u by blast
qed

section \<open>The check for an empty candidate set\<close>

text \<open>
  C4. The check for an empty candidate set reads \<^verbatim>\<open>length\<close> of a \<^verbatim>\<open>Set\<close>, which is
  \<^verbatim>\<open>undefined\<close>, and \<^verbatim>\<open>undefined != 0\<close> holds: a map request whose only candidate
  (\<^verbatim>\<open>org\<close> \<^verbatim>\<open>abc\<close>, \<^verbatim>\<open>space\<close> \<^verbatim>\<open>d e\<close>) is dropped and an unmap request whose only entry is
  blank both pass validation with the empty set, and the action goes on to the remote
  calls and resolves with an empty status list.
\<close>

theorem empty_candidate_set_passes:
  "validateArgsForMapRoutes (sample_args (JStr ''abc'') (JStr ''d e'') JUndefined JUndefined) =
     (sample_args (JStr ''abc'') (JStr ''d e'')
        (JArr [JObj [(''org'', JStr ''abc''), (''space'', JStr ''d e'')]]) JUndefined,
      Inr []) \<and>
   validateArgsForUnmapRoutes (sample_args JUndefined JUndefined (JArr [JStr ''  '']) JUndefined) =
     (sample_args JUndefined JUndefined (JArr [JStr ''  '']) JUndefined, Inr []) \<and>
   mapRoutes (stub_clients [\<lparr>app_metadata_guid = ''A''\<rparr>] [sample_route ''g1'' ''a'']
                (\<lambda>h. Inl (Plain ''x'')) (\<lambda>h. []) (\<lambda>g. False))
     (sample_args (JStr ''abc'') (JStr ''d e'') JUndefined JUndefined) ((), []) =
     (sample_args (JStr ''abc'') (JStr ''d e'')
        (JArr [JObj [(''org'', JStr ''abc''), (''space'', JStr ''d e'')]]) JUndefined,
      Inr [], ((), [GetApps ''app'', GetAppRoutes ''A''])) \<and>
   unmapRoutes (stub_clients [\<lparr>app_metadata_guid = ''A''\<rparr>] [sample_route ''g1'' ''a'']
                (\<lambda>h. Inl (Plain ''x'')) (\<lambda>h. []) (\<lambda>g. False))
     (sample_args JUndefined JUndefined (JArr [JStr ''  '']) JUndefined) ((), []) =
     (sample_args JUndefined JUndefined (JArr [JStr ''  '']) JUndefined,
      Inr [], ((), [GetApps ''app'', GetAppRoutes ''A'']))"
  (is "?VM \<and> ?VU \<and> ?M \<and> ?U")
proof -
  have vm: ?VM
    by (simp add: validateArgsForMapRoutes_def validateArgsBasic_def sample_args_def trim_def
          is_space_def is_alnum_def new_Set_def Set_length_def Let_def)
  have vu: ?VU
    by (simp add: validateArgsForUnmapRoutes_def validateArgsBasic_def sample_args_def trim_def
          is_space_def new_Set_def Set_length_def Let_def)
  have n: "the_string (appname (sample_args o1 s1 rs f)) = ''app''" for o1 s1 rs f
    by (simp add: sample_args_def)
  have d: "routesToAdd (filterAddDeleteAndGetIds live nm [] dels) = []"
     "routesToDelete (filterAddDeleteAndGetIds live nm adds []) = []" for live nm adds dels
    by (simp_all add: filterAddDeleteAndGetIds_def differ_fold new_Set_def)
  have m: ?M
    by (simp add: mapRoutes_def vm n sample_getAppRoutes d addRoutes_def map_status_def
          left_overs_def Let_def)
  have u: ?U
    by (simp add: unmapRoutes_def vu n sample_getAppRoutes d deleteRoutes_def unmap_status_def
          left_overs_def new_Set_def Let_def)
  show ?thesis using vm vu m u by blast
qed

theorem empty_candidate_set_passes_witness:
  "settled (mapRoutes (stub_clients [\<lparr>app_metadata_guid = ''A''\<rparr>] [sample_route ''g1'' ''a'']
                (\<lambda>h. Inl (Plain ''x'')) (\<lambda>h. []) (\<lambda>g. False))
     (sample_args (JStr ''abc'') (JStr ''d e'') JUndefined JUndefined) ((), [])) = Inr [] \<and>
   settled (unmapRoutes (stub_clients [\<lparr>app_metadata_guid = ''A''\<rparr>] [sample_route ''g1'' ''a'']
                (\<lambda>h. Inl (Plain ''x'')) (\<lambda>h. []) (\<lambda>g. False))
     (sample_args JUndefined JUndefined (JArr [JStr ''  '']) JUndefined) ((), [])) = Inr []"
  using empty_candidate_set_passes by simp

text \<open>For no request at all do the validators reject with the messages for an empty set.\<close>

lemma empty_set_never_rejected:
  "snd (validateArgsForMapRoutes a) \<noteq> Inl NoValidRouteNamesToMap \<and>
   snd (validateArgsForUnmapRoutes a) \<noteq> Inl NoRouteNamesToUnmap"
proof
  have b: "snd (validateArgsBasic a) \<noteq> Inl NoValidRouteNamesToMap"
    "snd (validateArgsBasic a) \<noteq> Inl NoRouteNamesToUnmap"
    by (simp_all add: validateArgsBasic_def)
  have f: "filter_valid xs \<noteq> Inl NoValidRouteNamesToMap" for xs
  proof (induction xs)
    case Nil
    show ?case by simp
  next
    case (Cons r rs)
    have "get_prop r k \<noteq> Inl NoValidRouteNamesToMap" for k by (cases r) simp_all
    then show ?case using Cons by (auto split: sum.splits)
  qed
  have t: "map_trim xs \<noteq> Inl NoRouteNamesToUnmap" for xs
    by (induction xs rule: map_trim.induct) (auto split: sum.splits)
  show "snd (validateArgsForMapRoutes a) \<noteq> Inl NoValidRouteNamesToMap"
    using b(1) f by (auto simp: validateArgsForMapRoutes_def Set_length_def Let_def split: sum.splits)
  show "snd (validateArgsForUnmapRoutes a) \<noteq> Inl NoRouteNamesToUnmap"
    using b(2) t by (auto simp: validateArgsForUnmapRoutes_def Set_length_def Let_def split: sum.splits)
qed

end
